theory Spec2Isabelle
  imports Complex_Main "HOL-Library.Sublist" "HOL-Library.Multiset"
begin

section \<open>Values of the program\<close>

text \<open>
  A Python \<open>str\<close> is a sequence of Unicode code points, so it is modelled as a list of
  natural numbers (not as bytes: \<open>str.strip\<close>, \<open>str.lower\<close> and the regular
  expressions of the source all work on code points). \<open>cps\<close> writes an ASCII literal.
\<close>

type_synonym pystr = "nat list"

definition cps :: "string \<Rightarrow> pystr" where
  "cps s = map of_char s"

text \<open>Exceptions raised by the source or by the libraries it calls.\<close>

datatype error = AttributeError | ValueError | IndexError | KeyError | ExternalFailure

text \<open>
  Metadata values: a string, a \<open>datetime\<close> at midnight (year, month, day), or \<open>None\<close>.
\<close>

datatype pyval = VStr pystr | VDate nat nat nat | VNone

text \<open>
  \<open>langchain\<close>'s \<open>Document\<close>. The metadata dictionary has string keys; it is an
  association list so that documents can be compared and evaluated.
\<close>

record document =
  page_content :: pystr
  metadata :: "(string \<times> pyval) list"

text \<open>
  The Unicode character database behind \<open>str.lower\<close>, the regular expression classes
  \<open>\w\<close> and \<open>\d\<close>, and \<open>int\<close> is not part of the repository: it is a parameter.
  \<open>u_decimal c\<close> is the value of \<open>c\<close> when \<open>c\<close> is a decimal digit.
\<close>

record unicode_tables =
  u_lower :: "pystr \<Rightarrow> pystr"
  u_word :: "nat \<Rightarrow> bool"
  u_decimal :: "nat \<Rightarrow> nat option"

text \<open>
  White space, as \<open>str.strip()\<close>, \<open>str.isspace\<close> and the class \<open>\s\<close> of a \<open>str\<close>
  pattern see it.
\<close>

definition py_isspace :: "nat \<Rightarrow> bool" where
  "py_isspace c =
     ((9 \<le> c \<and> c \<le> 13) \<or> (28 \<le> c \<and> c \<le> 32) \<or> c = 133 \<or> c = 160 \<or> c = 5760
      \<or> (8192 \<le> c \<and> c \<le> 8202) \<or> c = 8232 \<or> c = 8233 \<or> c = 8239 \<or> c = 8287
      \<or> c = 12288)"

section \<open>String operations of Python used by the source\<close>

text \<open>
  \<open>s.lower()\<close>: the empty string stays empty, and any other string goes through the
  tables.
\<close>

definition py_lower :: "unicode_tables \<Rightarrow> pystr \<Rightarrow> pystr" where
  "py_lower T s = (if s = [] then [] else u_lower T s)"

text \<open>\<open>s.strip(chars)\<close> with the characters to remove given as a predicate.\<close>

definition strip_where :: "(nat \<Rightarrow> bool) \<Rightarrow> pystr \<Rightarrow> pystr" where
  "strip_where p s = rev (dropWhile p (rev (dropWhile p s)))"

text \<open>\<open>s.strip()\<close>: white space removed at both ends.\<close>

definition py_strip :: "pystr \<Rightarrow> pystr" where
  "py_strip s = strip_where py_isspace s"

text \<open>\<open>s.strip(chars)\<close>: \<open>chars\<close> is a set of characters, not a substring.\<close>

definition py_strip_chars :: "pystr \<Rightarrow> pystr \<Rightarrow> pystr" where
  "py_strip_chars chars s = strip_where (\<lambda>c. c \<in> set chars) s"

text \<open>
  \<open>text.replace(old, '')\<close>: every occurrence of \<open>old\<close>, found from left to right
  without overlap, is removed. An empty \<open>old\<close> leaves the text as it is.
\<close>

function py_remove_all :: "pystr \<Rightarrow> pystr \<Rightarrow> pystr" where
  "py_remove_all old [] = []"
| "py_remove_all old (c # cs) =
     (if old \<noteq> [] \<and> prefix old (c # cs)
      then py_remove_all old (drop (length old) (c # cs))
      else c # py_remove_all old cs)"
  by pat_completeness auto
termination
  by (relation "measure (\<lambda>(old, s). length s)") (auto simp: Suc_lessI)

text \<open>\<open>sep.join(parts)\<close>.\<close>

fun py_join :: "pystr \<Rightarrow> pystr list \<Rightarrow> pystr" where
  "py_join sep [] = []"
| "py_join sep [x] = x"
| "py_join sep (x # y # ys) = x @ sep @ py_join sep (y # ys)"

text \<open>\<open>s.endswith(suffix)\<close>.\<close>

definition py_endswith :: "pystr \<Rightarrow> pystr \<Rightarrow> bool" where
  "py_endswith s suf = suffix suf s"

section \<open>Reader\<close>

subsection \<open>The metadata pattern\<close>

text \<open>
  \<open>Reader.__init__\<close> compiles
  \<^verbatim>\<open> Metadata\s*link: (https?://[^\s]+)\s*date: (\d{2}-\d{4})\<close>.
  The matcher below follows the pattern piece by piece. Both \<open>\s*\<close> are followed by a
  literal that starts with a letter, so only the greedy choice (all the white space) can
  succeed; \<open>[^\s]+\<close> is tried from its longest extent down to one character, as the
  backtracking matcher does.
\<close>

definition lit :: "pystr \<Rightarrow> pystr \<Rightarrow> pystr option" where
  "lit p s = (if prefix p s then Some (drop (length p) s) else None)"

text \<open>Group 2, \<open>\d{2}-\d{4}\<close>: the seven characters matched, if they match.\<close>

definition is_decimal :: "unicode_tables \<Rightarrow> nat \<Rightarrow> bool" where
  "is_decimal T c = (u_decimal T c \<noteq> None)"

definition date_group :: "unicode_tables \<Rightarrow> pystr \<Rightarrow> pystr option" where
  "date_group T s =
     (case s of
        d1 # d2 # h # y1 # y2 # y3 # y4 # _ \<Rightarrow>
          if is_decimal T d1 \<and> is_decimal T d2 \<and> h = 45 \<and> is_decimal T y1
             \<and> is_decimal T y2 \<and> is_decimal T y3 \<and> is_decimal T y4
          then Some [d1, d2, h, y1, y2, y3, y4] else None
      | _ \<Rightarrow> None)"

text \<open>
  What follows group 1: \<open>\s*date: (\d{2}-\d{4})\<close>. The result is the number of
  characters matched and group 2.
\<close>

definition after_link :: "unicode_tables \<Rightarrow> pystr \<Rightarrow> (nat \<times> pystr) option" where
  "after_link T s =
     (let ws = takeWhile py_isspace s in
      case lit (cps ''date: '') (drop (length ws) s) of
        None \<Rightarrow> None
      | Some r \<Rightarrow>
          (case date_group T r of
             None \<Rightarrow> None
           | Some d \<Rightarrow> Some (length ws + 6 + 7, d)))"

text \<open>
  \<open>[^\s]+\<close> with \<open>n\<close> characters, then \<open>n - 1\<close>, down to one. The result is the
  extent chosen, with what \<open>after_link\<close> found there.
\<close>

fun link_extent :: "unicode_tables \<Rightarrow> pystr \<Rightarrow> nat \<Rightarrow> (nat \<times> nat \<times> pystr) option" where
  "link_extent T s 0 = None"
| "link_extent T s (Suc n) =
     (case after_link T (drop (Suc n) s) of
        Some (m, d) \<Rightarrow> Some (Suc n, m, d)
      | None \<Rightarrow> link_extent T s n)"

text \<open>\<open>https?://\<close>: the number of characters of the scheme.\<close>

definition url_scheme :: "pystr \<Rightarrow> nat option" where
  "url_scheme s =
     (if prefix (cps ''https://'') s then Some 8
      else if prefix (cps ''http://'') s then Some 7
      else None)"

text \<open>
  The pattern matched at the start of \<open>s\<close>: group 0 (the text matched), group 1 (the
  link) and group 2 (the date).
\<close>

definition metadata_match_at :: "unicode_tables \<Rightarrow> pystr \<Rightarrow> (pystr \<times> pystr \<times> pystr) option" where
  "metadata_match_at T s =
     (case lit (cps '' Metadata'') s of
        None \<Rightarrow> None
      | Some r1 \<Rightarrow>
          (let ws = takeWhile py_isspace r1 in
           case lit (cps ''link: '') (drop (length ws) r1) of
             None \<Rightarrow> None
           | Some r2 \<Rightarrow>
               (case url_scheme r2 of
                  None \<Rightarrow> None
                | Some k \<Rightarrow>
                    (let r3 = drop k r2;
                         run = takeWhile (\<lambda>c. \<not> py_isspace c) r3
                     in case link_extent T r3 (length run) of
                          None \<Rightarrow> None
                        | Some (n, m, d) \<Rightarrow>
                            Some (take (9 + length ws + 6 + k + n + m) s,
                                  take (k + n) r2, d)))))"

text \<open>\<open>metadata_pattern.search(text)\<close>: the leftmost position where the pattern matches.\<close>

fun metadata_search :: "unicode_tables \<Rightarrow> pystr \<Rightarrow> (pystr \<times> pystr \<times> pystr) option" where
  "metadata_search T [] = metadata_match_at T []"
| "metadata_search T (c # cs) =
     (case metadata_match_at T (c # cs) of
        Some m \<Rightarrow> Some m
      | None \<Rightarrow> metadata_search T cs)"

subsection \<open>Parsing the date\<close>

text \<open>
  \<open>datetime.strptime(date_str, '%d-%m-%Y')\<close>. The library turns the format into the
  regular expression
  \<^verbatim>\<open>(3[0-1]|[1-2]\d|0[1-9]|[1-9]| [1-9])-(1[0-2]|0[1-9]|[1-9])-(\d\d\d\d)\<close>,
  matches it at the start of the string, refuses a string with characters left over,
  and builds the date, which checks the year and the day of the month. Every failure is
  a \<open>ValueError\<close>. The alternatives are listed in the order the matcher tries them.
\<close>

definition in_range :: "nat \<Rightarrow> nat \<Rightarrow> nat \<Rightarrow> bool" where
  "in_range lo hi c = (lo \<le> c \<and> c \<le> hi)"

definition day_alts :: "unicode_tables \<Rightarrow> pystr \<Rightarrow> (nat \<times> pystr) list" where
  "day_alts T s =
     (case s of
        a # b # r \<Rightarrow>
          (if a = 51 \<and> in_range 48 49 b then [(30 + (b - 48), r)] else [])
          @ (if in_range 49 50 a then
               (case u_decimal T b of Some v \<Rightarrow> [(10 * (a - 48) + v, r)] | None \<Rightarrow> [])
             else [])
          @ (if a = 48 \<and> in_range 49 57 b then [(b - 48, r)] else [])
          @ (if in_range 49 57 a then [(a - 48, b # r)] else [])
          @ (if a = 32 \<and> in_range 49 57 b then [(b - 48, r)] else [])
      | [a] \<Rightarrow> (if in_range 49 57 a then [(a - 48, [])] else [])
      | [] \<Rightarrow> [])"

definition month_alts :: "pystr \<Rightarrow> (nat \<times> pystr) list" where
  "month_alts s =
     (case s of
        a # b # r \<Rightarrow>
          (if a = 49 \<and> in_range 48 50 b then [(10 + (b - 48), r)] else [])
          @ (if a = 48 \<and> in_range 49 57 b then [(b - 48, r)] else [])
          @ (if in_range 49 57 a then [(a - 48, b # r)] else [])
      | [a] \<Rightarrow> (if in_range 49 57 a then [(a - 48, [])] else [])
      | [] \<Rightarrow> [])"

definition year_alts :: "unicode_tables \<Rightarrow> pystr \<Rightarrow> (nat \<times> pystr) list" where
  "year_alts T s =
     (case s of
        a # b # c # d # r \<Rightarrow>
          (case (u_decimal T a, u_decimal T b, u_decimal T c, u_decimal T d) of
             (Some x, Some y, Some z, Some w) \<Rightarrow> [(1000 * x + 100 * y + 10 * z + w, r)]
           | _ \<Rightarrow> [])
      | _ \<Rightarrow> [])"

definition hyphen :: "pystr \<Rightarrow> pystr list" where
  "hyphen s = (case s of c # r \<Rightarrow> (if c = 45 then [r] else []) | [] \<Rightarrow> [])"

text \<open>Every way the expression matches at the start, the matcher's first choice first.\<close>

definition dmy_matches :: "unicode_tables \<Rightarrow> pystr \<Rightarrow> ((nat \<times> nat \<times> nat) \<times> pystr) list" where
  "dmy_matches T s =
     concat (map (\<lambda>(d, r1).
       concat (map (\<lambda>r2.
         concat (map (\<lambda>(m, r3).
           concat (map (\<lambda>r4.
             map (\<lambda>(y, r5). ((d, m, y), r5)) (year_alts T r4))
           (hyphen r3)))
         (month_alts r2)))
       (hyphen r1)))
     (day_alts T s))"

definition leap_year :: "nat \<Rightarrow> bool" where
  "leap_year y = (y mod 4 = 0 \<and> (y mod 100 \<noteq> 0 \<or> y mod 400 = 0))"

definition days_in_month :: "nat \<Rightarrow> nat \<Rightarrow> nat" where
  "days_in_month y m =
     (if m = 2 then (if leap_year y then 29 else 28)
      else if m = 4 \<or> m = 6 \<or> m = 9 \<or> m = 11 then 30 else 31)"

definition strptime_dmY :: "unicode_tables \<Rightarrow> pystr \<Rightarrow> error + pyval" where
  "strptime_dmY T s =
     (case dmy_matches T s of
        [] \<Rightarrow> Inl ValueError
      | ((d, m, y), rest) # _ \<Rightarrow>
          if rest \<noteq> [] then Inl ValueError
          else if 1 \<le> y \<and> 1 \<le> m \<and> m \<le> 12 \<and> 1 \<le> d \<and> d \<le> days_in_month y m
          then Inr (VDate y m d)
          else Inl ValueError)"

subsection \<open>extract_metadata and read_documents\<close>

definition extract_metadata :: "unicode_tables \<Rightarrow> pystr \<Rightarrow> pystr \<times> (string \<times> pyval) list" where
  "extract_metadata T text =
     (case metadata_search T text of
        Some (metadata_text, g1, g2) \<Rightarrow>
          (let clean_text = py_strip (py_remove_all metadata_text text);
               link = py_strip g1;
               date_str = py_strip g2;
               date = (case strptime_dmY T date_str of Inr d \<Rightarrow> d | Inl _ \<Rightarrow> VNone)
           in (clean_text, [(''link'', VStr link), (''date'', date)]))
      | None \<Rightarrow> (text, []))"

text \<open>
  \<open>read_documents\<close> walks a directory. The files are given as the list of their names
  and contents, in the order \<open>os.walk\<close> yields them.
\<close>

fun read_documents :: "unicode_tables \<Rightarrow> (pystr \<times> pystr) list \<Rightarrow> document list" where
  "read_documents T [] = []"
| "read_documents T ((file, content) # fs) =
     (if py_endswith file (cps ''.md'')
      then (case extract_metadata T content of
              (text, md) \<Rightarrow> \<lparr>page_content = text, metadata = md\<rparr> # read_documents T fs)
      else read_documents T fs)"

section \<open>MetricEvaluator\<close>

text \<open>
  The capabilities injected into the services, which the repository treats as opaque:
  the embedding model, the language model, the prompt templates of \<open>prompts.json\<close>
  and the nearest-neighbour search of the vector index. Each may raise.
\<close>

datatype message = SystemMessage pystr | HumanMessage pystr

record capabilities =
  tables :: unicode_tables
  embed_query :: "pystr \<Rightarrow> error + real list"
  llm_invoke :: "pystr \<Rightarrow> error + pystr"
  llm_stream :: "message list \<Rightarrow> error + pystr option list"
  prompts :: "string \<Rightarrow> (pystr \<Rightarrow> error + pystr) option"
  similarity_search :: "pystr \<Rightarrow> int \<Rightarrow> document list \<Rightarrow> error + document list"

subsection \<open>CountVectorizer\<close>

text \<open>
  \<open>CountVectorizer()\<close> with its defaults lower-cases a document and takes as tokens
  the matches of \<^verbatim>\<open>(?u)\b\w\w+\b\<close>: the maximal runs of word characters that are at
  least two characters long.
\<close>

fun word_runs :: "(nat \<Rightarrow> bool) \<Rightarrow> pystr \<Rightarrow> pystr \<Rightarrow> pystr list" where
  "word_runs w cur [] = (if cur = [] then [] else [cur])"
| "word_runs w cur (c # cs) =
     (if w c then word_runs w (cur @ [c]) cs
      else (if cur = [] then [] else [cur]) @ word_runs w [] cs)"

definition tokenize :: "unicode_tables \<Rightarrow> pystr \<Rightarrow> pystr list" where
  "tokenize T doc = filter (\<lambda>t. 2 \<le> length t) (word_runs (u_word T) [] (py_lower T doc))"

text \<open>
  \<open>fit_transform([str1, str2]).toarray()\<close>: the vocabulary is the set of tokens of the
  two documents, and each document becomes the vector of its token counts. An empty
  vocabulary is a \<open>ValueError\<close>. (The library sorts the vocabulary; the order of the
  features changes neither a dot product nor a norm.)
\<close>

definition fit_transform :: "unicode_tables \<Rightarrow> pystr \<Rightarrow> pystr \<Rightarrow> error + (real list \<times> real list)" where
  "fit_transform T str1 str2 =
     (let t1 = tokenize T str1; t2 = tokenize T str2; vocabulary = remdups (t1 @ t2)
      in if vocabulary = [] then Inl ValueError
         else Inr (map (\<lambda>w. real (count_list t1 w)) vocabulary,
                   map (\<lambda>w. real (count_list t2 w)) vocabulary))"

subsection \<open>Cosine similarity\<close>

text \<open>
  \<open>sklearn\<close>'s \<open>cosine_similarity\<close> divides each vector by its Euclidean norm, a norm
  of zero being replaced by one, and takes the dot product. Scores are real numbers here.
\<close>

definition dot :: "real list \<Rightarrow> real list \<Rightarrow> real" where
  "dot xs ys = sum_list (map2 (*) xs ys)"

definition normalize_l2 :: "real list \<Rightarrow> real list" where
  "normalize_l2 xs = (let n = sqrt (dot xs xs) in map (\<lambda>x. x / (if n = 0 then 1 else n)) xs)"

definition cosine_sim :: "real list \<Rightarrow> real list \<Rightarrow> real" where
  "cosine_sim xs ys = dot (normalize_l2 xs) (normalize_l2 ys)"

subsection \<open>The scorer\<close>

definition lexical_cosine_similarity :: "capabilities \<Rightarrow> pystr \<Rightarrow> pystr \<Rightarrow> error + real" where
  "lexical_cosine_similarity E str1 str2 =
     (case fit_transform (tables E) str1 str2 of
        Inl e \<Rightarrow> Inl e
      | Inr (v1, v2) \<Rightarrow> Inr (cosine_sim v1 v2))"

definition get_embeddings :: "capabilities \<Rightarrow> pystr \<Rightarrow> error + real list" where
  "get_embeddings E text = embed_query E text"

text \<open>
  \<open>cosine_sim([embeddings1], [embeddings2])[0][0]\<close>: the library refuses vectors
  without features and vectors of different lengths with a \<open>ValueError\<close>.
\<close>

definition semantic_cosine_similarity :: "capabilities \<Rightarrow> pystr \<Rightarrow> pystr \<Rightarrow> error + real" where
  "semantic_cosine_similarity E str1 str2 =
     (case get_embeddings E str1 of
        Inl e \<Rightarrow> Inl e
      | Inr embeddings1 \<Rightarrow>
          (case get_embeddings E str2 of
             Inl e \<Rightarrow> Inl e
           | Inr embeddings2 \<Rightarrow>
               if embeddings1 = [] \<or> embeddings2 = []
                  \<or> length embeddings1 \<noteq> length embeddings2
               then Inl ValueError
               else Inr (cosine_sim embeddings1 embeddings2)))"

definition evaluate :: "capabilities \<Rightarrow> pystr \<Rightarrow> pystr \<Rightarrow> error + real" where
  "evaluate E str1 str2 =
     (case lexical_cosine_similarity E str1 str2 of
        Inl e \<Rightarrow> Inl e
      | Inr lexical_score \<Rightarrow>
          (case semantic_cosine_similarity E str1 str2 of
             Inl e \<Rightarrow> Inl e
           | Inr semantic_score \<Rightarrow> Inr (0.5 * lexical_score + 0.5 * semantic_score)))"

section \<open>Retriever\<close>

text \<open>
  The vector index is opaque: it is modelled by the documents it holds, in the order
  they were added. \<open>retriever\<close> is the queryable view made by \<open>as_retriever\<close>: the
  documents of the index it was made from and its own \<open>search_kwargs['k']\<close>. (The view
  refers to the index object; no method changes an index in place, so holding the
  documents is the same.)
  \<open>persisted\<close> is the index saved at \<open>index_path\<close>, if any; saving is taken to succeed.
  \<open>invoked\<close> is not a field of the class: it records the questions and result counts
  the index was queried with, to state what a method called.
\<close>

record view =
  view_docs :: "document list"
  search_k :: int

record Retriever =
  k_search :: int
  vectorstore :: "document list option"
  retriever :: "view option"
  persisted :: "document list option"
  invoked :: "(pystr \<times> int) list"

definition Retriever_init :: "int \<Rightarrow> document list option \<Rightarrow> Retriever" where
  "Retriever_init k disk =
     \<lparr>k_search = k, vectorstore = None, retriever = None, persisted = disk, invoked = []\<rparr>"

text \<open>\<open>indexer.from_documents\<close>: an index cannot be made from no document at all.\<close>

definition from_documents :: "document list \<Rightarrow> error + document list" where
  "from_documents documents = (if documents = [] then Inl IndexError else Inr documents)"

definition Retriever_setup :: "Retriever \<Rightarrow> error + Retriever" where
  "Retriever_setup r =
     (case vectorstore r of
        None \<Rightarrow> Inl AttributeError
      | Some docs \<Rightarrow> Inr (r\<lparr>retriever := Some \<lparr>view_docs = docs, search_k = k_search r\<rparr>\<rparr>))"

definition Retriever_save :: "Retriever \<Rightarrow> error + Retriever" where
  "Retriever_save r =
     (case vectorstore r of
        None \<Rightarrow> Inl AttributeError
      | Some docs \<Rightarrow> Inr (r\<lparr>persisted := Some docs\<rparr>))"

definition Retriever_build :: "Retriever \<Rightarrow> document list \<Rightarrow> error + Retriever" where
  "Retriever_build r documents =
     (case from_documents documents of
        Inl e \<Rightarrow> Inl e
      | Inr vs \<Rightarrow> Retriever_save (r\<lparr>vectorstore := Some vs\<rparr>))"

text \<open>\<open>load\<close>: a missing index is a \<open>RuntimeError\<close>, which is caught and printed.\<close>

definition Retriever_load :: "Retriever \<Rightarrow> Retriever" where
  "Retriever_load r =
     (case persisted r of
        None \<Rightarrow> r
      | Some docs \<Rightarrow> r\<lparr>vectorstore := Some docs\<rparr>)"

text \<open>
  \<open>set\<close>. The indexer is \<open>langchain\<close>'s \<open>FAISS\<close>, as \<open>routes.py\<close> wires it. Its class
  has a method \<open>merge_from\<close> and no method \<open>merge\<close>, so on an adapter that already
  holds an index \<open>self.vectorstore.merge(vectorstore)\<close> is an \<open>AttributeError\<close>: it is
  raised after the new index was made and before \<open>save\<close> and the new view, and the
  adapter is left as it was. Without an index the new one becomes the index, is saved,
  and the view is made with \<open>k_search\<close>.
\<close>

definition Retriever_set :: "Retriever \<Rightarrow> document list \<Rightarrow> (error + unit) \<times> Retriever" where
  "Retriever_set r documents =
     (case from_documents documents of
        Inl e \<Rightarrow> (Inl e, r)
      | Inr vs \<Rightarrow>
          (case vectorstore r of
             Some old \<Rightarrow> (Inl AttributeError, r)
           | None \<Rightarrow>
               (let r1 = r\<lparr>vectorstore := Some vs\<rparr>
                in case Retriever_save r1 of
                     Inl e \<Rightarrow> (Inl e, r1)
                   | Inr r2 \<Rightarrow>
                       (case vectorstore r2 of
                          None \<Rightarrow> (Inl AttributeError, r2)
                        | Some docs \<Rightarrow>
                            (Inr (),
                             r2\<lparr>retriever :=
                                  Some \<lparr>view_docs = docs, search_k = k_search r2\<rparr>\<rparr>)))))"

text \<open>
  \<open>get\<close>: \<open>if k:\<close> holds for an integer other than zero. Without a view,
  \<open>self.retriever\<close> is \<open>None\<close> and both branches read an attribute of it.
\<close>

definition Retriever_get ::
  "capabilities \<Rightarrow> Retriever \<Rightarrow> pystr \<Rightarrow> int option \<Rightarrow> (error + document list) \<times> Retriever" where
  "Retriever_get E r question k =
     (case retriever r of
        None \<Rightarrow> (Inl AttributeError, r)
      | Some v \<Rightarrow>
          (let v' = (case k of
                       None \<Rightarrow> v
                     | Some n \<Rightarrow> if n \<noteq> 0 then v\<lparr>search_k := n\<rparr> else v)
           in (similarity_search E question (search_k v') (view_docs v'),
               r\<lparr>retriever := Some v', invoked := invoked r @ [(question, search_k v')]\<rparr>)))"

section \<open>QAService\<close>

text \<open>
  The state of the service: its two adapters and the threshold. The scorer and the
  language model are the capabilities, passed to each method.
\<close>

record QAService =
  qa_cache :: Retriever
  qa_retriever :: Retriever
  qa_threshold :: real

text \<open>
  \<open>__init__\<close>, given the two persisted indexes (if any) and the files under
  \<open>data_path\<close>.
\<close>

definition QAService_init ::
  "capabilities \<Rightarrow> document list option \<Rightarrow> document list option \<Rightarrow> (pystr \<times> pystr) list
     \<Rightarrow> int \<Rightarrow> real \<Rightarrow> error + QAService" where
  "QAService_init E disk_cache disk_index files k threshold =
     (let cache0 = Retriever_load (Retriever_init k disk_cache) in
      case (if vectorstore cache0 \<noteq> None then Retriever_setup cache0 else Inr cache0) of
        Inl e \<Rightarrow> Inl e
      | Inr cache1 \<Rightarrow>
          (let r0 = Retriever_load (Retriever_init k disk_index) in
           case (if vectorstore r0 = None
                 then Retriever_build r0 (read_documents (tables E) files) else Inr r0) of
             Inl e \<Rightarrow> Inl e
           | Inr r1 \<Rightarrow>
               (case Retriever_setup r1 of
                  Inl e \<Rightarrow> Inl e
                | Inr r2 \<Rightarrow>
                    Inr \<lparr>qa_cache = cache1, qa_retriever = r2, qa_threshold = threshold\<rparr>)))"

text \<open>\<open>Config().PROMPTS[name].format(...)\<close>: a missing template is a \<open>KeyError\<close>.\<close>

definition prompt :: "capabilities \<Rightarrow> string \<Rightarrow> pystr \<Rightarrow> error + pystr" where
  "prompt E name arg = (case prompts E name of None \<Rightarrow> Inl KeyError | Some f \<Rightarrow> f arg)"

text \<open>The affirmative token, \<open>U+0434 U+0430\<close>.\<close>

definition affirmative :: pystr where
  "affirmative = [1076, 1072]"

definition detect_intent :: "capabilities \<Rightarrow> pystr \<Rightarrow> error + bool" where
  "detect_intent E que =
     (case prompt E ''intent'' que of
        Inl e \<Rightarrow> Inl e
      | Inr p \<Rightarrow>
          (case llm_invoke E p of
             Inl e \<Rightarrow> Inl e
           | Inr content \<Rightarrow>
               (let intent = py_lower (tables E) content
                in Inr (if prefix affirmative intent then False else True))))"

text \<open>The loop of \<open>filter_based_on_metric\<close>, with \<open>result\<close> as it grows.\<close>

fun filter_loop ::
  "capabilities \<Rightarrow> real \<Rightarrow> pystr \<Rightarrow> document list \<Rightarrow> document list \<Rightarrow> error + document list" where
  "filter_loop E threshold question [] result = Inr result"
| "filter_loop E threshold question (document # documents) result =
     (case evaluate E question (page_content document) of
        Inl e \<Rightarrow> Inl e
      | Inr score \<Rightarrow>
          filter_loop E threshold question documents
            (if score > threshold then result @ [document] else result))"

definition filter_based_on_metric ::
  "capabilities \<Rightarrow> QAService \<Rightarrow> pystr \<Rightarrow> document list \<Rightarrow> error + document list" where
  "filter_based_on_metric E svc question documents =
     filter_loop E (qa_threshold svc) question documents []"

text \<open>\<open>document.metadata.get('answer')\<close>.\<close>

definition metadata_get :: "document \<Rightarrow> string \<Rightarrow> pyval" where
  "metadata_get d key = (case map_of (metadata d) key of None \<Rightarrow> VNone | Some v \<Rightarrow> v)"

text \<open>
  \<open>get_cached_answer\<close> returns a list or \<open>None\<close>: \<open>Some xs\<close> is the list \<open>xs\<close>, and
  \<open>None\<close> is Python's \<open>None\<close>.
\<close>

definition get_cached_answer ::
  "capabilities \<Rightarrow> QAService \<Rightarrow> pystr \<Rightarrow> int option
     \<Rightarrow> (error + pyval list option) \<times> QAService" where
  "get_cached_answer E svc question k =
     (case Retriever_get E (qa_cache svc) question k of
        (Inl e, c) \<Rightarrow> (Inl e, svc\<lparr>qa_cache := c\<rparr>)
      | (Inr documents, c) \<Rightarrow>
          (let svc' = svc\<lparr>qa_cache := c\<rparr> in
           if documents \<noteq> [] then
             (case filter_based_on_metric E svc' question documents of
                Inl e \<Rightarrow> (Inl e, svc')
              | Inr filtered \<Rightarrow>
                  if filtered = [] then (Inr None, svc')
                  else (Inr (Some (map (\<lambda>d. metadata_get d ''answer'') filtered)), svc'))
           else (Inr (Some (map (\<lambda>d. metadata_get d ''answer'') documents)), svc')))"

text \<open>The label whose characters are stripped: \<open>U+041E U+0442 U+0432 U+0435 U+0442\<close> and a colon.\<close>

definition answer_label :: pystr where
  "answer_label = [1054, 1090, 1074, 1077, 1090, 58]"

text \<open>\<open>result += response.content or ''\<close>, over the chunks of the stream.\<close>

definition accumulate :: "pystr option list \<Rightarrow> pystr" where
  "accumulate chunks =
     foldl (\<lambda>result content. result @ (case content of None \<Rightarrow> [] | Some c \<Rightarrow> c)) [] chunks"

text \<open>
  The second half of \<open>get_llm_answer\<close>: the two messages, the stream, the accumulated
  result and the strip.
\<close>

definition answer_with_context :: "capabilities \<Rightarrow> pystr \<Rightarrow> pystr \<Rightarrow> error + pystr" where
  "answer_with_context E context question =
     (case prompt E ''system'' context of
        Inl e \<Rightarrow> Inl e
      | Inr sys \<Rightarrow>
          (case prompt E ''user'' question of
             Inl e \<Rightarrow> Inl e
           | Inr usr \<Rightarrow>
               (case llm_stream E [SystemMessage sys, HumanMessage usr] of
                  Inl e \<Rightarrow> Inl e
                | Inr chunks \<Rightarrow> Inr (py_strip_chars answer_label (accumulate chunks)))))"

text \<open>The first half: the context, empty unless retrieval is needed.\<close>

definition assemble_context ::
  "capabilities \<Rightarrow> QAService \<Rightarrow> pystr \<Rightarrow> (error + pystr) \<times> QAService" where
  "assemble_context E svc question =
     (case detect_intent E question of
        Inl e \<Rightarrow> (Inl e, svc)
      | Inr needed \<Rightarrow>
          if needed then
            (case Retriever_get E (qa_retriever svc) question None of
               (Inl e, r) \<Rightarrow> (Inl e, svc\<lparr>qa_retriever := r\<rparr>)
             | (Inr documents, r) \<Rightarrow>
                 (Inr (py_join [10, 10] (map page_content documents)),
                  svc\<lparr>qa_retriever := r\<rparr>))
          else (Inr [], svc))"

definition get_llm_answer ::
  "capabilities \<Rightarrow> QAService \<Rightarrow> pystr \<Rightarrow> (error + pystr) \<times> QAService" where
  "get_llm_answer E svc question =
     (case assemble_context E svc question of
        (Inl e, svc') \<Rightarrow> (Inl e, svc')
      | (Inr context, svc') \<Rightarrow> (answer_with_context E context question, svc'))"

text \<open>
  \<open>set_cache\<close>: \<open>qa_pairs.items()\<close> is the list of the dictionary's pairs, in insertion
  order.
\<close>

definition set_cache ::
  "QAService \<Rightarrow> (pystr \<times> pystr) list \<Rightarrow> (error + unit) \<times> QAService" where
  "set_cache svc qa_pairs =
     (let documents =
            map (\<lambda>(question, answer).
                   \<lparr>page_content = question, metadata = [(''answer'', VStr answer)]\<rparr>) qa_pairs
      in case Retriever_set (qa_cache svc) documents of
           (res, c) \<Rightarrow> (res, svc\<lparr>qa_cache := c\<rparr>))"

section \<open>Notions used to state the properties\<close>

text \<open>A candidate is admitted when its score is defined and strictly above the threshold.\<close>

definition admitted :: "capabilities \<Rightarrow> real \<Rightarrow> pystr \<Rightarrow> document \<Rightarrow> bool" where
  "admitted E t question d =
     (case evaluate E question (page_content d) of Inr score \<Rightarrow> t < score | Inl _ \<Rightarrow> False)"

text \<open>The documents an adapter's index holds; none when there is no index.\<close>

definition stored :: "Retriever \<Rightarrow> document list" where
  "stored r = (case vectorstore r of None \<Rightarrow> [] | Some docs \<Rightarrow> docs)"

text \<open>The cache entry \<open>set_cache\<close> makes of a question and its answer.\<close>

definition cache_entry :: "pystr \<Rightarrow> pystr \<Rightarrow> document" where
  "cache_entry question answer = \<lparr>page_content = question, metadata = [(''answer'', VStr answer)]\<rparr>"




section \<open>Sample inputs\<close>

text \<open>
  Tables that agree with Python's on ASCII and on the Cyrillic letters
  \<open>U+0410\<close> to \<open>U+044F\<close>; the sample texts use no other character.
\<close>

definition sample_tables :: unicode_tables where
  "sample_tables =
     \<lparr>u_lower = map (\<lambda>c. if (65 \<le> c \<and> c \<le> 90) \<or> (1040 \<le> c \<and> c \<le> 1071) then c + 32 else c),
      u_word = (\<lambda>c. (48 \<le> c \<and> c \<le> 57) \<or> (65 \<le> c \<and> c \<le> 90) \<or> c = 95
                     \<or> (97 \<le> c \<and> c \<le> 122) \<or> (1040 \<le> c \<and> c \<le> 1103)),
      u_decimal = (\<lambda>c. if 48 \<le> c \<and> c \<le> 57 then Some (c - 48) else None)\<rparr>"

text \<open>
  The reply and the stream of \<open>DummyLLM\<close> (\<open>LLM.py\<close>): the affirmative token, and one
  chunk that ends with the label.
\<close>

definition dummy_chunk :: pystr where
  "dummy_chunk =
     [1069, 1090, 1086, 32, 1087, 1088, 1080, 1084, 1077, 1088, 32, 1086, 1090, 1074, 1077,
      1090, 1072, 32, 1086, 1090, 32, 1084, 1086, 1076, 1077, 1083, 1080, 46, 32, 1054, 1090,
      1074, 1077, 1090, 58]"

text \<open>
  Capabilities for the examples: \<open>DummyLLM\<close>, templates that are their placeholder alone,
  an embedding that maps every text to the same vector (so that the semantic score is 1),
  and an index that returns its first \<open>k\<close> documents.
\<close>

definition dummy_caps :: capabilities where
  "dummy_caps =
     \<lparr>tables = sample_tables,
      embed_query = (\<lambda>text. Inr [1]),
      llm_invoke = (\<lambda>p. Inr [1076, 1072]),
      llm_stream = (\<lambda>messages. Inr [Some dummy_chunk]),
      prompts = (\<lambda>name. if name = ''intent'' \<or> name = ''system'' \<or> name = ''user''
                          then Some (\<lambda>arg. Inr arg) else None),
      similarity_search = (\<lambda>question k docs. Inr (take (nat k) docs))\<rparr>"

text \<open>The same with a language model whose intent reply is \<open>U+041D U+0435 U+0442\<close>.\<close>

definition negative_caps :: capabilities where
  "negative_caps = dummy_caps\<lparr>llm_invoke := (\<lambda>p. Inr [1053, 1077, 1090])\<rparr>"

text \<open>Two documents: one shares the token of the question \<open>password\<close>, one does not.\<close>

definition doc_password :: document where
  "doc_password = cache_entry (cps ''password'') (cps ''Use the settings menu'')"

definition doc_hello :: document where
  "doc_hello = cache_entry (cps ''hello'') (cps ''Hi'')"

text \<open>An adapter that holds the two documents, set up with the default count.\<close>

definition sample_adapter :: Retriever where
  "sample_adapter =
     \<lparr>k_search = 5, vectorstore = Some [doc_password, doc_hello],
      retriever = Some \<lparr>view_docs = [doc_password, doc_hello], search_k = 5\<rparr>,
      persisted = Some [doc_password, doc_hello], invoked = []\<rparr>"

text \<open>An adapter after \<open>load\<close> found nothing.\<close>

definition empty_adapter :: Retriever where
  "empty_adapter = Retriever_init 5 None"

definition sample_service :: QAService where
  "sample_service = \<lparr>qa_cache = sample_adapter, qa_retriever = sample_adapter, qa_threshold = 0.5\<rparr>"

definition fresh_service :: QAService where
  "fresh_service = \<lparr>qa_cache = empty_adapter, qa_retriever = sample_adapter, qa_threshold = 0.5\<rparr>"

text \<open>Texts with a metadata block: a three-part date, and a two-part one.\<close>

definition text_full_date :: pystr where
  "text_full_date =
     cps ''Body text. Metadata'' @ [10] @ cps ''link: https://x.test/a'' @ [10]
     @ cps ''date: 15-03-2024''"

definition text_short_date :: pystr where
  "text_short_date =
     cps ''Body text. Metadata'' @ [10] @ cps ''link: https://x.test/a'' @ [10]
     @ cps ''date: 03-2024''"

section \<open>Evaluation of the sample inputs\<close>

lemmas sample_defs = sample_tables_def cps_def dummy_caps_def negative_caps_def doc_password_def
  doc_hello_def cache_entry_def sample_adapter_def empty_adapter_def sample_service_def
  fresh_service_def Retriever_init_def

lemmas scorer_defs = evaluate_def lexical_cosine_similarity_def semantic_cosine_similarity_def
  get_embeddings_def cosine_sim_def normalize_l2_def dot_def tokenize_def py_lower_def
  fit_transform_def

lemma sample_scores:
  "evaluate dummy_caps (cps ''password'') (page_content doc_password) = Inr 1"
  "evaluate dummy_caps (cps ''password'') (page_content doc_hello) = Inr 0.5"
  by (simp_all add: scorer_defs sample_defs)

lemma sample_filter:
  "filter_based_on_metric dummy_caps sample_service (cps ''password'') [doc_password, doc_hello]
     = Inr [doc_password]"
  by (simp add: filter_based_on_metric_def sample_scores sample_service_def)

lemma sample_get:
  "Retriever_get dummy_caps (qa_cache sample_service) (cps ''password'') None
     = (Inr [doc_password, doc_hello],
        sample_adapter\<lparr>invoked := [(cps ''password'', 5)]\<rparr>)"
  by (simp add: Retriever_get_def sample_service_def sample_adapter_def dummy_caps_def)

section \<open>The relevance filter\<close>

lemma admitted_iff:
  "admitted E t q d \<longleftrightarrow> (\<exists>s. evaluate E q (page_content d) = Inr s \<and> t < s)"
  by (cases "evaluate E q (page_content d)") (auto simp: admitted_def)

lemma filter_loop_result:
  "filter_loop E t q docs acc = Inr r \<Longrightarrow> r = acc @ filter (admitted E t q) docs"
proof (induction docs arbitrary: acc)
  case Nil
  then show ?case by simp
next
  case (Cons d docs)
  show ?case
  proof (cases "evaluate E q (page_content d)")
    case (Inl e)
    with Cons.prems show ?thesis by simp
  next
    case (Inr s)
    show ?thesis
    proof (cases "t < s")
      case True
      with Inr Cons.prems have "filter_loop E t q docs (acc @ [d]) = Inr r" by simp
      from Cons.IH [OF this] True Inr show ?thesis by (simp add: admitted_def)
    next
      case False
      with Inr Cons.prems have "filter_loop E t q docs acc = Inr r" by simp
      from Cons.IH [OF this] False Inr show ?thesis by (simp add: admitted_def)
    qed
  qed
qed

text \<open>
  C8. Whatever the question and the documents, when \<open>filter_based_on_metric\<close> returns,
  its result is a subsequence of the documents it was given: each document returned is
  one of the input, as it was, and the result is exactly the admitted ones in their order.
\<close>

theorem filter_based_on_metric_selects:
  assumes "filter_based_on_metric E svc question documents = Inr result"
  shows "subseq result documents \<and> set result \<subseteq> set documents
         \<and> result = filter (admitted E (qa_threshold svc) question) documents"
proof -
  from assms have "filter_loop E (qa_threshold svc) question documents [] = Inr result"
    by (simp add: filter_based_on_metric_def)
  from filter_loop_result [OF this]
  have r: "result = filter (admitted E (qa_threshold svc) question) documents" by simp
  then show ?thesis by auto
qed

theorem filter_based_on_metric_selects_witness:
  "filter_based_on_metric dummy_caps sample_service (cps ''password'') [doc_password, doc_hello]
     = Inr [doc_password]
   \<and> subseq [doc_password] [doc_password, doc_hello]"
  by (rule conjI [OF sample_filter
        conjunct1 [OF filter_based_on_metric_selects [OF sample_filter]]])

section \<open>The cached answer\<close>

lemma sample_cached:
  "get_cached_answer dummy_caps sample_service (cps ''password'') None
     = (Inr (Some [VStr (cps ''Use the settings menu'')]),
        sample_service\<lparr>qa_cache := sample_adapter\<lparr>invoked := [(cps ''password'', 5)]\<rparr>\<rparr>)"
proof -
  have "filter_based_on_metric dummy_caps
          (sample_service\<lparr>qa_cache := sample_adapter\<lparr>invoked := [(cps ''password'', 5)]\<rparr>\<rparr>)
          (cps ''password'') [doc_password, doc_hello] = Inr [doc_password]"
    by (simp add: filter_based_on_metric_def sample_scores sample_service_def)
  then show ?thesis
    by (simp add: get_cached_answer_def sample_get metadata_get_def doc_password_def cache_entry_def)
qed

text \<open>
  C1. Whatever the question and the candidates the cache adapter returned, the list
  \<open>get_cached_answer\<close> returns is the \<open>answer\<close> metadata of exactly the candidates whose
  score is defined and strictly greater than the threshold, in the order of the
  candidates: nothing is ranked again after the filter.
\<close>

theorem get_cached_answer_strict_filter:
  assumes "Retriever_get E (qa_cache svc) question k = (Inr documents, c)"
    and "get_cached_answer E svc question k = (Inr (Some answers), svc')"
  shows "answers =
           map (\<lambda>d. metadata_get d ''answer'')
             (filter (\<lambda>d. \<exists>score. evaluate E question (page_content d) = Inr score
                                  \<and> qa_threshold svc < score) documents)"
proof (cases "documents = []")
  case True
  with assms show ?thesis by (simp add: get_cached_answer_def)
next
  case False
  with assms obtain filtered where
    f: "filter_loop E (qa_threshold svc) question documents [] = Inr filtered"
    and a: "answers = map (\<lambda>d. metadata_get d ''answer'') filtered"
    by (auto simp: get_cached_answer_def filter_based_on_metric_def Let_def
             split: sum.splits if_splits)
  from filter_loop_result [OF f]
  have "filtered = filter (admitted E (qa_threshold svc) question) documents"
    by simp
  with a show ?thesis by (simp add: admitted_iff [abs_def])
qed

theorem get_cached_answer_strict_filter_witness:
  "Retriever_get dummy_caps (qa_cache sample_service) (cps ''password'') None
     = (Inr [doc_password, doc_hello], sample_adapter\<lparr>invoked := [(cps ''password'', 5)]\<rparr>)
   \<and> get_cached_answer dummy_caps sample_service (cps ''password'') None
     = (Inr (Some [VStr (cps ''Use the settings menu'')]),
        sample_service\<lparr>qa_cache := sample_adapter\<lparr>invoked := [(cps ''password'', 5)]\<rparr>\<rparr>)
   \<and> evaluate dummy_caps (cps ''password'') (page_content doc_hello) = Inr (qa_threshold sample_service)
   \<and> [VStr (cps ''Use the settings menu'')] =
       map (\<lambda>d. metadata_get d ''answer'')
         (filter (\<lambda>d. \<exists>score. evaluate dummy_caps (cps ''password'') (page_content d) = Inr score
                              \<and> qa_threshold sample_service < score) [doc_password, doc_hello])"
proof -
  have t: "evaluate dummy_caps (cps ''password'') (page_content doc_hello)
             = Inr (qa_threshold sample_service)"
    by (simp add: sample_scores sample_service_def)
  show ?thesis
    by (intro conjI sample_get sample_cached t
          get_cached_answer_strict_filter [OF sample_get sample_cached])
qed

lemma filter_loop_none_admitted:
  assumes "\<And>d. d \<in> set docs \<Longrightarrow> \<exists>s. evaluate E q (page_content d) = Inr s \<and> s \<le> t"
  shows "filter_loop E t q docs acc = Inr acc"
  using assms
proof (induction docs arbitrary: acc)
  case Nil
  then show ?case by simp
next
  case (Cons d docs)
  from Cons.prems [of d] obtain s where s: "evaluate E q (page_content d) = Inr s" "s \<le> t"
    by auto
  have "filter_loop E t q docs acc = Inr acc"
    by (rule Cons.IH) (simp add: Cons.prems)
  with s show ?case by simp
qed

text \<open>
  C10. The two outcomes without a match are different values. When the cache query
  returns no document, \<open>get_cached_answer\<close> returns the empty list; when it returns
  candidates and every one of them is scored at or below the threshold, it returns
  \<open>None\<close>. The empty list and \<open>None\<close> are not the same value.
\<close>

theorem get_cached_answer_two_no_match_values:
  "(Retriever_get E (qa_cache svc) question k = (Inr [], c)
      \<longrightarrow> get_cached_answer E svc question k = (Inr (Some []), svc\<lparr>qa_cache := c\<rparr>))
   \<and> (Retriever_get E (qa_cache svc) question k = (Inr documents, c) \<and> documents \<noteq> []
        \<and> (\<forall>d \<in> set documents. \<exists>score. evaluate E question (page_content d) = Inr score
                                          \<and> score \<le> qa_threshold svc)
      \<longrightarrow> get_cached_answer E svc question k = (Inr None, svc\<lparr>qa_cache := c\<rparr>))
   \<and> (Inr (Some []) :: error + pyval list option) \<noteq> Inr None"
proof (intro conjI impI)
  assume "Retriever_get E (qa_cache svc) question k = (Inr [], c)"
  then show "get_cached_answer E svc question k = (Inr (Some []), svc\<lparr>qa_cache := c\<rparr>)"
    by (simp add: get_cached_answer_def)
next
  assume a: "Retriever_get E (qa_cache svc) question k = (Inr documents, c) \<and> documents \<noteq> []
        \<and> (\<forall>d \<in> set documents. \<exists>score. evaluate E question (page_content d) = Inr score
                                          \<and> score \<le> qa_threshold svc)"
  then have "filter_loop E (qa_threshold svc) question documents [] = Inr []"
    by (intro filter_loop_none_admitted) blast
  with a show "get_cached_answer E svc question k = (Inr None, svc\<lparr>qa_cache := c\<rparr>)"
    by (simp add: get_cached_answer_def filter_based_on_metric_def)
next
  show "(Inr (Some []) :: error + pyval list option) \<noteq> Inr None" by simp
qed

lemma other_scores:
  "evaluate dummy_caps (cps ''other'') (page_content doc_password) = Inr 0.5"
  "evaluate dummy_caps (cps ''other'') (page_content doc_hello) = Inr 0.5"
  by (simp_all add: scorer_defs sample_defs)

lemma sample_get_other:
  "Retriever_get dummy_caps (qa_cache sample_service) (cps ''other'') None
     = (Inr [doc_password, doc_hello], sample_adapter\<lparr>invoked := [(cps ''other'', 5)]\<rparr>)"
  by (simp add: Retriever_get_def sample_service_def sample_adapter_def dummy_caps_def)

lemma sample_get_nothing:
  "Retriever_get (dummy_caps\<lparr>similarity_search := (\<lambda>question k docs. Inr [])\<rparr>)
     (qa_cache sample_service) (cps ''other'') None
     = (Inr [], sample_adapter\<lparr>invoked := [(cps ''other'', 5)]\<rparr>)"
  by (simp add: Retriever_get_def sample_service_def sample_adapter_def dummy_caps_def)

theorem get_cached_answer_two_no_match_values_witness:
  "get_cached_answer (dummy_caps\<lparr>similarity_search := (\<lambda>question k docs. Inr [])\<rparr>)
     sample_service (cps ''other'') None
     = (Inr (Some []),
        sample_service\<lparr>qa_cache := sample_adapter\<lparr>invoked := [(cps ''other'', 5)]\<rparr>\<rparr>)
   \<and> get_cached_answer dummy_caps sample_service (cps ''other'') None
     = (Inr None, sample_service\<lparr>qa_cache := sample_adapter\<lparr>invoked := [(cps ''other'', 5)]\<rparr>\<rparr>)"
proof -
  note T = get_cached_answer_two_no_match_values
  have h: "Retriever_get dummy_caps (qa_cache sample_service) (cps ''other'') None
             = (Inr [doc_password, doc_hello], sample_adapter\<lparr>invoked := [(cps ''other'', 5)]\<rparr>)
           \<and> [doc_password, doc_hello] \<noteq> []
           \<and> (\<forall>d \<in> set [doc_password, doc_hello].
                 \<exists>score. evaluate dummy_caps (cps ''other'') (page_content d) = Inr score
                         \<and> score \<le> qa_threshold sample_service)"
  proof (intro conjI)
    have t: "qa_threshold sample_service = 0.5" by (simp add: sample_service_def)
    have e1: "\<exists>score. evaluate dummy_caps (cps ''other'') (page_content doc_password) = Inr score
                     \<and> score \<le> qa_threshold sample_service"
      by (rule exI [of _ "0.5"]) (simp add: other_scores t)
    have e2: "\<exists>score. evaluate dummy_caps (cps ''other'') (page_content doc_hello) = Inr score
                     \<and> score \<le> qa_threshold sample_service"
      by (rule exI [of _ "0.5"]) (simp add: other_scores t)
    show "\<forall>d \<in> set [doc_password, doc_hello].
            \<exists>score. evaluate dummy_caps (cps ''other'') (page_content d) = Inr score
                    \<and> score \<le> qa_threshold sample_service"
      using e1 e2 by simp
  qed (simp_all add: sample_get_other)
  show ?thesis
    by (rule conjI [OF mp [OF conjunct1 [OF T] sample_get_nothing]
                       mp [OF conjunct1 [OF conjunct2 [OF T]] h]])
qed

section \<open>An empty cache store\<close>

lemma Retriever_get_no_view:
  "retriever r = None \<Longrightarrow> Retriever_get E r question k = (Inl AttributeError, r)"
  by (simp add: Retriever_get_def)

lemma QAService_init_empty_cache:
  assumes "QAService_init E None disk_index files n threshold = Inr svc"
  shows "qa_cache svc = Retriever_init n None"
  using assms
  by (auto simp: QAService_init_def Retriever_load_def Retriever_init_def Let_def
           split: sum.splits if_splits)

text \<open>
  C3. The code does not do what the specification says. A service whose \<open>load\<close> found
  no persisted cache index skips \<open>setup\<close>, so the cache adapter has no view, and
  \<open>get_cached_answer\<close> raises \<open>AttributeError\<close> for every question and every \<open>k\<close>
  instead of returning a result without a match.
\<close>

theorem get_cached_answer_empty_cache_raises:
  assumes "QAService_init E None disk_index files n threshold = Inr svc"
  shows "get_cached_answer E svc question k = (Inl AttributeError, svc)"
proof -
  from QAService_init_empty_cache [OF assms]
  have c: "qa_cache svc = Retriever_init n None" .
  then have "retriever (qa_cache svc) = None" by (simp add: Retriever_init_def)
  from Retriever_get_no_view [OF this]
  have "Retriever_get E (qa_cache svc) question k = (Inl AttributeError, qa_cache svc)" .
  then show ?thesis by (simp add: get_cached_answer_def)
qed

lemma sample_init:
  "QAService_init dummy_caps None (Some [doc_password, doc_hello]) [] 5 0.5 = Inr fresh_service"
  by (simp add: QAService_init_def Retriever_load_def Retriever_init_def Retriever_setup_def
        fresh_service_def empty_adapter_def sample_adapter_def Let_def)

theorem get_cached_answer_empty_cache_raises_witness:
  "QAService_init dummy_caps None (Some [doc_password, doc_hello]) [] 5 0.5 = Inr fresh_service
   \<and> get_cached_answer dummy_caps fresh_service (cps ''anything'') (Some 1)
       = (Inl AttributeError, fresh_service)"
  by (rule conjI [OF sample_init get_cached_answer_empty_cache_raises [OF sample_init]])

section \<open>Intent and context\<close>

lemma detect_intent_reply:
  assumes "prompt E ''intent'' question = Inr p" and "llm_invoke E p = Inr reply"
  shows "detect_intent E question = Inr (\<not> prefix affirmative (py_lower (tables E) reply))"
  using assms by (simp add: detect_intent_def)

lemma py_join_concat:
  "py_join sep parts =
     (case parts of [] \<Rightarrow> [] | y # ys \<Rightarrow> y @ concat (map (\<lambda>z. sep @ z) ys))"
  by (induction sep parts rule: py_join.induct) simp_all

text \<open>
  C4. Let the intent prompt be built and let the language model reply to it. Retrieval
  is needed exactly when the reply, lower-cased, does not start with the affirmative
  token; the empty reply therefore needs retrieval. When the reply is affirmative,
  \<open>get_llm_answer\<close> answers from the empty context and leaves the service as it was, so
  the corpus adapter was not queried. When retrieval is needed and the corpus adapter
  returns documents, the context is the content of the first document followed, for each
  further document, by two newline characters and its content.
\<close>

theorem get_llm_answer_intent_and_context:
  assumes "prompt E ''intent'' question = Inr p" and "llm_invoke E p = Inr reply"
  shows "detect_intent E question = Inr (\<not> prefix affirmative (py_lower (tables E) reply))
    \<and> (reply = [] \<longrightarrow> detect_intent E question = Inr True)
    \<and> (prefix affirmative (py_lower (tables E) reply) \<longrightarrow>
          get_llm_answer E svc question = (answer_with_context E [] question, svc)
          \<and> invoked (qa_retriever (snd (get_llm_answer E svc question)))
              = invoked (qa_retriever svc))
    \<and> (\<not> prefix affirmative (py_lower (tables E) reply) \<longrightarrow>
          (\<forall>documents r. Retriever_get E (qa_retriever svc) question None = (Inr documents, r) \<longrightarrow>
             get_llm_answer E svc question
               = (answer_with_context E
                    (case documents of
                       [] \<Rightarrow> []
                     | d # ds \<Rightarrow>
                         page_content d @ concat (map (\<lambda>d'. [10, 10] @ page_content d') ds))
                    question,
                  svc\<lparr>qa_retriever := r\<rparr>)))"
proof -
  note d = detect_intent_reply [OF assms]
  have j: "\<And>documents. py_join [10, 10] (map page_content documents)
             = (case documents of
                  [] \<Rightarrow> []
                | d # ds \<Rightarrow> page_content d @ concat (map (\<lambda>d'. [10, 10] @ page_content d') ds))"
    by (simp add: py_join_concat [of "[10, 10]"] o_def split: list.splits)
  have 1: "reply = [] \<longrightarrow> detect_intent E question = Inr True"
    using d by (simp add: affirmative_def py_lower_def)
  have 2: "prefix affirmative (py_lower (tables E) reply) \<longrightarrow>
          get_llm_answer E svc question = (answer_with_context E [] question, svc)
          \<and> invoked (qa_retriever (snd (get_llm_answer E svc question)))
              = invoked (qa_retriever svc)"
    using d by (simp add: get_llm_answer_def assemble_context_def)
  have 3: "\<not> prefix affirmative (py_lower (tables E) reply) \<longrightarrow>
          (\<forall>documents r. Retriever_get E (qa_retriever svc) question None = (Inr documents, r) \<longrightarrow>
             get_llm_answer E svc question
               = (answer_with_context E
                    (case documents of
                       [] \<Rightarrow> []
                     | d # ds \<Rightarrow>
                         page_content d @ concat (map (\<lambda>d'. [10, 10] @ page_content d') ds))
                    question,
                  svc\<lparr>qa_retriever := r\<rparr>))"
    using d by (simp add: get_llm_answer_def assemble_context_def j)
  from d 1 2 3 show ?thesis by blast
qed

lemma dummy_intent:
  "prompt dummy_caps ''intent'' (cps ''password'') = Inr (cps ''password'')"
  "llm_invoke dummy_caps (cps ''password'') = Inr [1076, 1072]"
  "prefix affirmative (py_lower (tables dummy_caps) [1076, 1072])"
  by (simp_all add: prompt_def dummy_caps_def sample_tables_def affirmative_def py_lower_def)

lemma negative_intent:
  "prompt negative_caps ''intent'' (cps ''password'') = Inr (cps ''password'')"
  "llm_invoke negative_caps (cps ''password'') = Inr [1053, 1077, 1090]"
  "\<not> prefix affirmative (py_lower (tables negative_caps) [1053, 1077, 1090])"
  by (simp_all add: prompt_def negative_caps_def dummy_caps_def sample_tables_def affirmative_def
        py_lower_def)

lemma negative_get:
  "Retriever_get negative_caps (qa_retriever sample_service) (cps ''password'') None
     = (Inr [doc_password, doc_hello], sample_adapter\<lparr>invoked := [(cps ''password'', 5)]\<rparr>)"
  by (simp add: Retriever_get_def sample_service_def sample_adapter_def dummy_caps_def
        negative_caps_def)

lemma sample_context:
  "(case [doc_password, doc_hello] of
      [] \<Rightarrow> []
    | d # ds \<Rightarrow> page_content d @ concat (map (\<lambda>d'. [10, 10] @ page_content d') ds))
   = [112, 97, 115, 115, 119, 111, 114, 100, 10, 10, 104, 101, 108, 108, 111]"
  by (simp add: doc_password_def doc_hello_def cache_entry_def cps_def)

theorem get_llm_answer_intent_and_context_witness:
  "prompt dummy_caps ''intent'' (cps ''password'') = Inr (cps ''password'')
   \<and> llm_invoke dummy_caps (cps ''password'') = Inr [1076, 1072]
   \<and> get_llm_answer dummy_caps sample_service (cps ''password'')
       = (answer_with_context dummy_caps [] (cps ''password''), sample_service)
   \<and> llm_invoke negative_caps (cps ''password'') = Inr [1053, 1077, 1090]
   \<and> get_llm_answer negative_caps sample_service (cps ''password'')
       = (answer_with_context negative_caps
            [112, 97, 115, 115, 119, 111, 114, 100, 10, 10, 104, 101, 108, 108, 111]
            (cps ''password''),
          sample_service\<lparr>qa_retriever := sample_adapter\<lparr>invoked := [(cps ''password'', 5)]\<rparr>\<rparr>)"
proof -
  note A = get_llm_answer_intent_and_context
             [OF dummy_intent(1) dummy_intent(2), where svc = sample_service]
  note B = get_llm_answer_intent_and_context
             [OF negative_intent(1) negative_intent(2), where svc = sample_service]
  from A dummy_intent(3)
  have a: "get_llm_answer dummy_caps sample_service (cps ''password'')
             = (answer_with_context dummy_caps [] (cps ''password''), sample_service)"
    by blast
  from B negative_intent(3) negative_get
  have "get_llm_answer negative_caps sample_service (cps ''password'')
       = (answer_with_context negative_caps
            (case [doc_password, doc_hello] of
               [] \<Rightarrow> []
             | d # ds \<Rightarrow> page_content d @ concat (map (\<lambda>d'. [10, 10] @ page_content d') ds))
            (cps ''password''),
          sample_service\<lparr>qa_retriever := sample_adapter\<lparr>invoked := [(cps ''password'', 5)]\<rparr>\<rparr>)"
    by blast
  then have b: "get_llm_answer negative_caps sample_service (cps ''password'')
       = (answer_with_context negative_caps
            [112, 97, 115, 115, 119, 111, 114, 100, 10, 10, 104, 101, 108, 108, 111]
            (cps ''password''),
          sample_service\<lparr>qa_retriever := sample_adapter\<lparr>invoked := [(cps ''password'', 5)]\<rparr>\<rparr>)"
    by (simp only: sample_context)
  show ?thesis
    by (intro conjI dummy_intent(1) dummy_intent(2) negative_intent(2) a b)
qed

section \<open>The label strip\<close>

lemma last_dropWhile_eq:
  "dropWhile p xs \<noteq> [] \<Longrightarrow> last (dropWhile p xs) = last xs"
proof -
  assume n: "dropWhile p xs \<noteq> []"
  have "last xs = last (takeWhile p xs @ dropWhile p xs)" by simp
  also from n have "\<dots> = last (dropWhile p xs)" by (rule last_appendR)
  finally show ?thesis by simp
qed

lemma strip_where_split:
  "\<exists>pre post. s = pre @ strip_where p s @ post \<and> (\<forall>x \<in> set pre. p x) \<and> (\<forall>x \<in> set post. p x)"
proof -
  let ?m = "dropWhile p s"
  let ?d = "dropWhile p (rev ?m)"
  let ?t = "takeWhile p (rev ?m)"
  have m: "?m = rev ?d @ rev ?t"
    by (metis rev_append rev_rev_ident takeWhile_dropWhile_id)
  have "s = takeWhile p s @ ?m" by simp
  with m have "s = takeWhile p s @ rev ?d @ rev ?t" by simp
  moreover have "\<forall>x \<in> set (takeWhile p s). p x" by (auto dest: set_takeWhileD)
  moreover have "\<forall>x \<in> set (rev ?t). p x" by (auto dest: set_takeWhileD)
  ultimately show ?thesis unfolding strip_where_def by blast
qed

lemma strip_where_ends:
  assumes "strip_where p s \<noteq> []"
  shows "\<not> p (hd (strip_where p s)) \<and> \<not> p (last (strip_where p s))"
proof -
  let ?m = "dropWhile p s"
  let ?d = "dropWhile p (rev ?m)"
  from assms have d: "?d \<noteq> []" by (simp add: strip_where_def)
  have m: "?m \<noteq> []"
    using d by (metis dropWhile.simps(1) rev.simps(1))
  have "hd (rev ?d) = last ?d" using d by (simp add: hd_rev)
  also have "\<dots> = last (rev ?m)" using d by (rule last_dropWhile_eq)
  also have "\<dots> = hd ?m" using m by (simp add: last_rev)
  finally have h: "hd (strip_where p s) = hd ?m" by (simp add: strip_where_def)
  have "last (rev ?d) = hd ?d" using d by (simp add: last_rev)
  then have l: "last (strip_where p s) = hd ?d" by (simp add: strip_where_def)
  from m have "\<not> p (hd ?m)" by (rule hd_dropWhile)
  moreover from d have "\<not> p (hd ?d)" by (rule hd_dropWhile)
  ultimately show ?thesis using h l by simp
qed

lemma foldl_accumulate:
  "foldl (\<lambda>result content. result @ (case content of None \<Rightarrow> [] | Some c \<Rightarrow> c)) acc chunks
     = acc @ concat (map (\<lambda>content. case content of None \<Rightarrow> [] | Some c \<Rightarrow> c) chunks)"
  by (induction chunks arbitrary: acc) simp_all

lemma accumulate_concat:
  "accumulate chunks = concat (map (\<lambda>content. case content of None \<Rightarrow> [] | Some c \<Rightarrow> c) chunks)"
  by (simp add: accumulate_def foldl_accumulate)

lemma answer_with_context_result:
  assumes "answer_with_context E context question = Inr result"
  shows "\<exists>messages chunks. llm_stream E messages = Inr chunks
           \<and> result = py_strip_chars answer_label (accumulate chunks)"
  using assms by (auto simp: answer_with_context_def split: sum.splits)

lemma get_llm_answer_result:
  assumes "get_llm_answer E svc question = (Inr result, svc')"
  shows "\<exists>context. answer_with_context E context question = Inr result"
  using assms
  by (cases "assemble_context E svc question")
     (auto simp: get_llm_answer_def split: sum.splits)

text \<open>
  C6. Whenever \<open>get_llm_answer\<close> returns a string, that string is the accumulated stream
  with a prefix and a suffix removed, both made only of characters of the label; what is
  left neither starts nor ends with a character of the label. The strip works on the set
  of the label's characters, not on the label as a substring.
\<close>

theorem get_llm_answer_strips_label_characters:
  assumes "get_llm_answer E svc question = (Inr result, svc')"
  shows "\<exists>messages chunks pre post.
           llm_stream E messages = Inr chunks
           \<and> result = py_strip_chars answer_label (accumulate chunks)
           \<and> accumulate chunks = pre @ result @ post
           \<and> set pre \<subseteq> set answer_label \<and> set post \<subseteq> set answer_label
           \<and> (result \<noteq> [] \<longrightarrow> hd result \<notin> set answer_label \<and> last result \<notin> set answer_label)"
proof -
  from get_llm_answer_result [OF assms] obtain ctx where
    "answer_with_context E ctx question = Inr result" ..
  from answer_with_context_result [OF this] obtain messages chunks where
    s: "llm_stream E messages = Inr chunks"
    and r: "result = strip_where (\<lambda>c. c \<in> set answer_label) (accumulate chunks)"
    by (auto simp: py_strip_chars_def)
  from strip_where_split [of "accumulate chunks" "\<lambda>c. c \<in> set answer_label"] r
  obtain pre post where
    p: "accumulate chunks = pre @ result @ post"
       "\<forall>x \<in> set pre. x \<in> set answer_label" "\<forall>x \<in> set post. x \<in> set answer_label"
    by auto
  have e: "result \<noteq> [] \<longrightarrow> hd result \<notin> set answer_label \<and> last result \<notin> set answer_label"
    using strip_where_ends [of "\<lambda>c. c \<in> set answer_label" "accumulate chunks"] r by simp
  from r have r': "result = py_strip_chars answer_label (accumulate chunks)"
    by (simp add: py_strip_chars_def)
  from p have "set pre \<subseteq> set answer_label" "set post \<subseteq> set answer_label" by auto
  with s r' p(1) e show ?thesis by blast
qed

lemma dummy_answer:
  "get_llm_answer dummy_caps sample_service (cps ''password'')
     = (Inr [1069, 1090, 1086, 32, 1087, 1088, 1080, 1084, 1077, 1088, 32, 1086, 1090, 1074,
             1077, 1090, 1072, 32, 1086, 1090, 32, 1084, 1086, 1076, 1077, 1083, 1080, 46, 32],
        sample_service)"
  by (simp add: get_llm_answer_def assemble_context_def detect_intent_def prompt_def
        answer_with_context_def accumulate_def py_strip_chars_def strip_where_def
        answer_label_def dummy_chunk_def affirmative_def dummy_caps_def sample_tables_def
        py_lower_def)

theorem get_llm_answer_strips_label_characters_witness:
  "get_llm_answer dummy_caps sample_service (cps ''password'')
     = (Inr [1069, 1090, 1086, 32, 1087, 1088, 1080, 1084, 1077, 1088, 32, 1086, 1090, 1074,
             1077, 1090, 1072, 32, 1086, 1090, 32, 1084, 1086, 1076, 1077, 1083, 1080, 46, 32],
        sample_service)
   \<and> py_strip_chars answer_label dummy_chunk
       = [1069, 1090, 1086, 32, 1087, 1088, 1080, 1084, 1077, 1088, 32, 1086, 1090, 1074,
          1077, 1090, 1072, 32, 1086, 1090, 32, 1084, 1086, 1076, 1077, 1083, 1080, 46, 32]
   \<and> (\<exists>messages chunks pre post.
           llm_stream dummy_caps messages = Inr chunks
           \<and> [1069, 1090, 1086, 32, 1087, 1088, 1080, 1084, 1077, 1088, 32, 1086, 1090, 1074,
               1077, 1090, 1072, 32, 1086, 1090, 32, 1084, 1086, 1076, 1077, 1083, 1080, 46, 32]
               = py_strip_chars answer_label (accumulate chunks)
           \<and> accumulate chunks = pre @
               [1069, 1090, 1086, 32, 1087, 1088, 1080, 1084, 1077, 1088, 32, 1086, 1090, 1074,
                1077, 1090, 1072, 32, 1086, 1090, 32, 1084, 1086, 1076, 1077, 1083, 1080, 46, 32]
               @ post
           \<and> set pre \<subseteq> set answer_label \<and> set post \<subseteq> set answer_label)"
proof -
  have s: "py_strip_chars answer_label dummy_chunk
       = [1069, 1090, 1086, 32, 1087, 1088, 1080, 1084, 1077, 1088, 32, 1086, 1090, 1074,
          1077, 1090, 1072, 32, 1086, 1090, 32, 1084, 1086, 1076, 1077, 1083, 1080, 46, 32]"
    by (simp add: py_strip_chars_def strip_where_def answer_label_def dummy_chunk_def)
  from get_llm_answer_strips_label_characters [OF dummy_answer]
  have "\<exists>messages chunks pre post.
           llm_stream dummy_caps messages = Inr chunks
           \<and> [1069, 1090, 1086, 32, 1087, 1088, 1080, 1084, 1077, 1088, 32, 1086, 1090, 1074,
               1077, 1090, 1072, 32, 1086, 1090, 32, 1084, 1086, 1076, 1077, 1083, 1080, 46, 32]
               = py_strip_chars answer_label (accumulate chunks)
           \<and> accumulate chunks = pre @
               [1069, 1090, 1086, 32, 1087, 1088, 1080, 1084, 1077, 1088, 32, 1086, 1090, 1074,
                1077, 1090, 1072, 32, 1086, 1090, 32, 1084, 1086, 1076, 1077, 1083, 1080, 46, 32]
               @ post
           \<and> set pre \<subseteq> set answer_label \<and> set post \<subseteq> set answer_label"
    by blast
  with dummy_answer s show ?thesis by (intro conjI)
qed

section \<open>Writing the cache twice\<close>

lemma Retriever_set_on_index:
  assumes "vectorstore r = Some old" and "documents \<noteq> []"
  shows "Retriever_set r documents = (Inl AttributeError, r)"
  using assms by (simp add: Retriever_set_def from_documents_def)


lemma Retriever_set_first:
  assumes "vectorstore r = None" and "documents \<noteq> []"
  shows "Retriever_set r documents
           = (Inr (), r\<lparr>vectorstore := Some documents, persisted := Some documents,
                        retriever := Some \<lparr>view_docs = documents, search_k = k_search r\<rparr>\<rparr>)"
  using assms by (simp add: Retriever_set_def from_documents_def Retriever_save_def)

lemma set_cache_first:
  assumes "vectorstore (qa_cache svc) = None"
  shows "set_cache svc [(q, a)]
           = (Inr (), svc\<lparr>qa_cache := (qa_cache svc)
                \<lparr>vectorstore := Some [cache_entry q a], persisted := Some [cache_entry q a],
                 retriever := Some \<lparr>view_docs = [cache_entry q a],
                                   search_k = k_search (qa_cache svc)\<rparr>\<rparr>\<rparr>)"
proof -
  have n: "[cache_entry q a] \<noteq> []" by simp
  show ?thesis
    by (simp add: set_cache_def Let_def cache_entry_def [symmetric]
          Retriever_set_first [OF assms n])
qed

lemma set_cache_on_index:
  assumes "vectorstore (qa_cache svc) = Some old"
  shows "set_cache svc [(q, a)] = (Inl AttributeError, svc)"
proof -
  have n: "[cache_entry q a] \<noteq> []" by simp
  show ?thesis
    by (simp add: set_cache_def Let_def cache_entry_def [symmetric]
          Retriever_set_on_index [OF assms n])
qed

lemma mset_single_same:
  assumes "mset r = mset [d]"
  shows "r = [d]"
  using assms by (cases r) auto

text \<open>
  C7. The code does not do what the specification says. Start from a service whose
  cache has no index and call \<open>set_cache\<close> twice with the same pair. The first call
  succeeds and the cache holds the entry once. The second call raises \<open>AttributeError\<close>
  at \<open>self.vectorstore.merge\<close> and leaves the service as it was: nothing is merged, and
  the entry is not there twice. If the index returns every document it holds when asked
  for at least as many, the default count is at least one, and the question scores above
  the threshold against itself, then \<open>get_cached_answer\<close> returns the answer once.
\<close>

theorem set_cache_second_call_raises:
  assumes fresh: "vectorstore (qa_cache svc) = None"
    and k: "1 \<le> k_search (qa_cache svc)"
    and idx: "\<forall>n docs. int (length docs) \<le> n \<longrightarrow>
                (\<exists>r. similarity_search E q n docs = Inr r \<and> mset r = mset docs)"
    and sc: "evaluate E q q = Inr s" "qa_threshold svc < s"
    and s1: "svc1 = snd (set_cache svc [(q, a)])"
  shows "fst (set_cache svc [(q, a)]) = Inr ()
         \<and> set_cache svc1 [(q, a)] = (Inl AttributeError, svc1)
         \<and> stored (qa_cache svc1) = [cache_entry q a]
         \<and> fst (get_cached_answer E (snd (set_cache svc1 [(q, a)])) q None)
             = Inr (Some [VStr a])"
proof -
  let ?d = "cache_entry q a"
  let ?k = "k_search (qa_cache svc)"
  note f = set_cache_first [OF fresh, of q a]
  from f have ok: "fst (set_cache svc [(q, a)]) = Inr ()" by simp
  from f s1 have vs: "vectorstore (qa_cache svc1) = Some [?d]" by simp
  from f s1 have v: "retriever (qa_cache svc1) = Some \<lparr>view_docs = [?d], search_k = ?k\<rparr>"
    by simp
  from f s1 have t: "qa_threshold svc1 = qa_threshold svc" by simp
  from vs have st: "stored (qa_cache svc1) = [?d]" by (simp add: stored_def)
  note second = set_cache_on_index [OF vs, of q a]
  from k have "int (length [?d]) \<le> ?k" by simp
  with idx obtain r where r: "similarity_search E q ?k [?d] = Inr r" "mset r = mset [?d]"
    by blast
  from mset_single_same [OF r(2)] r(1)
  have ss: "similarity_search E q ?k [?d] = Inr [?d]" by simp
  have g: "Retriever_get E (qa_cache svc1) q None
             = (Inr [?d], (qa_cache svc1)\<lparr>retriever := Some \<lparr>view_docs = [?d], search_k = ?k\<rparr>,
                 invoked := invoked (qa_cache svc1) @ [(q, ?k)]\<rparr>)"
    by (simp add: Retriever_get_def v ss)
  have pc: "page_content ?d = q" by (simp add: cache_entry_def)
  have fl: "filter_loop E (qa_threshold svc) q [?d] [] = Inr [?d]"
    using sc by (simp add: pc)
  have fb: "\<And>svc'. qa_threshold svc' = qa_threshold svc \<Longrightarrow>
              filter_based_on_metric E svc' q [?d] = Inr [?d]"
    by (simp only: filter_based_on_metric_def fl)
  have an: "metadata_get ?d ''answer'' = VStr a"
    by (simp add: metadata_get_def cache_entry_def)
  have "fst (get_cached_answer E svc1 q None) = Inr (Some [VStr a])"
    by (simp add: get_cached_answer_def g Let_def fb t an)
  with ok second st show ?thesis by simp
qed

lemma password_self_score:
  "evaluate dummy_caps (cps ''password'') (cps ''password'') = Inr 1"
  by (simp add: scorer_defs sample_defs)

lemma dummy_index_returns_all:
  "\<forall>n docs. int (length docs) \<le> n \<longrightarrow>
     (\<exists>r. similarity_search dummy_caps q n docs = Inr r \<and> mset r = mset docs)"
  by (simp add: dummy_caps_def)

theorem set_cache_second_call_raises_witness:
  "vectorstore (qa_cache fresh_service) = None
   \<and> (1::int) \<le> k_search (qa_cache fresh_service)
   \<and> evaluate dummy_caps (cps ''password'') (cps ''password'') = Inr 1
   \<and> qa_threshold fresh_service < 1
   \<and> fst (set_cache fresh_service [(cps ''password'', cps ''Use the settings menu'')]) = Inr ()
   \<and> fst (set_cache (snd (set_cache fresh_service
                [(cps ''password'', cps ''Use the settings menu'')]))
           [(cps ''password'', cps ''Use the settings menu'')]) = Inl AttributeError
   \<and> fst (get_cached_answer dummy_caps
            (snd (set_cache (snd (set_cache fresh_service
                    [(cps ''password'', cps ''Use the settings menu'')]))
               [(cps ''password'', cps ''Use the settings menu'')]))
            (cps ''password'') None)
       = Inr (Some [VStr (cps ''Use the settings menu'')])"
proof -
  have f: "vectorstore (qa_cache fresh_service) = None"
    by (simp add: fresh_service_def empty_adapter_def Retriever_init_def)
  have k: "1 \<le> k_search (qa_cache fresh_service)"
    by (simp add: fresh_service_def empty_adapter_def Retriever_init_def)
  have t: "qa_threshold fresh_service < 1" by (simp add: fresh_service_def)
  note T = set_cache_second_call_raises
             [OF f k dummy_index_returns_all password_self_score t refl,
              where a = "cps ''Use the settings menu''"]
  from conjunct1 [OF conjunct2 [OF T]]
  have e: "fst (set_cache (snd (set_cache fresh_service
                [(cps ''password'', cps ''Use the settings menu'')]))
           [(cps ''password'', cps ''Use the settings menu'')]) = Inl AttributeError"
    by simp
  from f k password_self_score t conjunct1 [OF T] e
    conjunct2 [OF conjunct2 [OF conjunct2 [OF T]]]
  show ?thesis by (intro conjI)
qed

section \<open>The result count of an adapter\<close>







section \<open>Strings without tokens\<close>

lemma dot_zeros_left: "dot (map (\<lambda>w. 0) ws) ys = 0"
  unfolding dot_def
  by (induction ws arbitrary: ys) (simp, case_tac ys, simp_all)

lemma dot_zeros_right: "dot xs (map (\<lambda>w. 0) ws) = 0"
  unfolding dot_def
  by (induction ws arbitrary: xs) (simp, case_tac xs, simp_all)

lemma normalize_zeros: "normalize_l2 (map (\<lambda>w. 0) ws) = map (\<lambda>w. 0) ws"
  by (simp add: normalize_l2_def dot_zeros_left)

lemma cosine_zeros_left: "cosine_sim (map (\<lambda>w. 0) ws) ys = 0"
  by (simp add: cosine_sim_def normalize_zeros dot_zeros_left)

lemma cosine_zeros_right: "cosine_sim xs (map (\<lambda>w. 0) ws) = 0"
  by (simp add: cosine_sim_def normalize_zeros dot_zeros_right)

lemma lexical_tokenless_left:
  assumes "tokenize (tables E) a = []" and "tokenize (tables E) b \<noteq> []"
  shows "lexical_cosine_similarity E a b = Inr 0"
  using assms
  by (simp add: lexical_cosine_similarity_def fit_transform_def Let_def cosine_zeros_left)

lemma lexical_tokenless_right:
  assumes "tokenize (tables E) a \<noteq> []" and "tokenize (tables E) b = []"
  shows "lexical_cosine_similarity E a b = Inr 0"
  using assms
  by (simp add: lexical_cosine_similarity_def fit_transform_def Let_def cosine_zeros_right)

lemma lexical_no_tokens_raises:
  assumes "tokenize (tables E) a = []" and "tokenize (tables E) b = []"
  shows "lexical_cosine_similarity E a b = Inl ValueError"
    and "evaluate E a b = Inl ValueError"
  using assms
  by (simp_all add: evaluate_def lexical_cosine_similarity_def fit_transform_def)

text \<open>
  C5, as the code has it. When one of the two strings has no token and the other has at
  least one, and the embedding capability returns for both a vector of the same length,
  not empty, then \<open>evaluate\<close> does not raise: the lexical score is 0 and the combined
  score is half the semantic score.
\<close>

theorem evaluate_one_string_without_tokens:
  assumes "(tokenize (tables E) a = [] \<and> tokenize (tables E) b \<noteq> [])
           \<or> (tokenize (tables E) a \<noteq> [] \<and> tokenize (tables E) b = [])"
    and "get_embeddings E a = Inr ea" and "get_embeddings E b = Inr eb"
    and "ea \<noteq> []" and "length ea = length eb"
  shows "lexical_cosine_similarity E a b = Inr 0
         \<and> evaluate E a b = Inr (0.5 * cosine_sim ea eb)"
proof -
  from assms(1) have l: "lexical_cosine_similarity E a b = Inr 0"
    using lexical_tokenless_left lexical_tokenless_right by blast
  from assms(4,5) have "eb \<noteq> []" by auto
  with assms(2-5) have "semantic_cosine_similarity E a b = Inr (cosine_sim ea eb)"
    by (simp add: semantic_cosine_similarity_def)
  with l show ?thesis by (simp add: evaluate_def)
qed

lemma anything_tokens:
  "tokenize (tables dummy_caps) [] = []"
  "tokenize (tables dummy_caps) (cps ''anything'') \<noteq> []"
  "tokenize (tables dummy_caps) (cps ''?!'') = []"
  by (simp_all add: tokenize_def py_lower_def sample_defs)

lemma anything_embeddings:
  "get_embeddings dummy_caps [] = Inr [1]"
  "get_embeddings dummy_caps (cps ''anything'') = Inr [1]"
  by (simp_all add: get_embeddings_def dummy_caps_def)

theorem evaluate_one_string_without_tokens_witness:
  "tokenize (tables dummy_caps) [] = []
   \<and> tokenize (tables dummy_caps) (cps ''anything'') \<noteq> []
   \<and> get_embeddings dummy_caps [] = Inr [1]
   \<and> get_embeddings dummy_caps (cps ''anything'') = Inr [1]
   \<and> lexical_cosine_similarity dummy_caps [] (cps ''anything'') = Inr 0
   \<and> evaluate dummy_caps [] (cps ''anything'') = Inr (0.5 * cosine_sim [1] [1])"
proof -
  have h: "(tokenize (tables dummy_caps) [] = [] \<and> tokenize (tables dummy_caps) (cps ''anything'') \<noteq> [])
           \<or> (tokenize (tables dummy_caps) [] \<noteq> [] \<and> tokenize (tables dummy_caps) (cps ''anything'') = [])"
    using anything_tokens(1,2) by blast
  have n: "[1::real] \<noteq> []" "length [1::real] = length [1::real]" by simp_all
  note T = evaluate_one_string_without_tokens [OF h anything_embeddings n]
  from anything_tokens(1,2) anything_embeddings conjunct1 [OF T] conjunct2 [OF T]
  show ?thesis by (intro conjI)
qed

text \<open>
  C5 does not hold when neither string has a token: the vocabulary is empty and
  \<open>evaluate('', '?!')\<close> raises \<open>ValueError\<close>.
\<close>

theorem evaluate_no_tokens_at_all_raises:
  "tokenize (tables dummy_caps) [] = []
   \<and> tokenize (tables dummy_caps) (cps ''?!'') = []
   \<and> evaluate dummy_caps [] (cps ''?!'') = Inl ValueError"
  by (intro conjI anything_tokens(1) anything_tokens(3)
        lexical_no_tokens_raises(2) [OF anything_tokens(1) anything_tokens(3)])

section \<open>The metadata block\<close>

lemmas reader_defs = extract_metadata_def metadata_match_at_def lit_def after_link_def
  date_group_def url_scheme_def is_decimal_def py_isspace_def py_strip_def strip_where_def
  strptime_dmY_def dmy_matches_def day_alts_def month_alts_def year_alts_def hyphen_def
  in_range_def

text \<open>
  C2. The code does not do what the specification says. The pattern takes a date of two
  parts, two digits and four, so a block whose date is \<open>15-03-2024\<close> does not match at all:
  \<open>extract_metadata\<close> returns the text as it was, block included, and empty metadata.
\<close>

theorem extract_metadata_full_date_not_matched:
  "extract_metadata sample_tables text_full_date = (text_full_date, [])"
  by (simp add: text_full_date_def reader_defs sample_tables_def cps_def)

text \<open>
  With a date of two parts the block is matched, and the date, which cannot be of the
  form day, month and year, is \<open>None\<close>.
\<close>

lemma extract_metadata_short_date:
  "extract_metadata sample_tables text_short_date
     = (cps ''Body text.'', [(''link'', VStr (cps ''https://x.test/a'')), (''date'', VNone)])"
  by (simp add: text_short_date_def reader_defs sample_tables_def cps_def)

subsection \<open>The date of a matched block\<close>

lemma mem_if_singleton: "q \<in> set (if b then [z] else []) \<Longrightarrow> q = z"
  by (cases b) simp_all

lemma mem_if_list: "q \<in> set (if b then zs else []) \<Longrightarrow> q \<in> set zs"
  by (cases b) simp_all

lemma mem_option_singleton:
  "q \<in> set (case opt of None \<Rightarrow> [] | Some w \<Rightarrow> [f w]) \<Longrightarrow> \<exists>w. q = f w"
  by (cases opt) auto

lemma day_alts_rest:
  assumes "(n, r) \<in> set (day_alts T (a # b # t))"
  shows "r = t \<or> r = b # t"
  using assms unfolding day_alts_def
  apply (simp only: list.case set_append Un_iff)
  apply (elim disjE)
      apply (drule mem_if_singleton, simp)
     apply (drule mem_if_list, drule mem_option_singleton, erule exE, simp)
    apply (drule mem_if_singleton, simp)
   apply (drule mem_if_singleton, simp)
  apply (drule mem_if_singleton, simp)
  done

lemma day_alts_consume:
  assumes "(n, r) \<in> set (day_alts T s)"
  shows "length r + 1 \<le> length s"
proof (cases s)
  case Nil
  with assms show ?thesis by (simp add: day_alts_def)
next
  case (Cons a s')
  show ?thesis
  proof (cases s')
    case Nil
    with assms Cons have "(n, r) \<in> set (if in_range 49 57 a then [(a - 48, [])] else [])"
      by (simp only: day_alts_def list.case)
    from mem_if_singleton [OF this] Cons Nil show ?thesis by simp
  next
    case (Cons b t)
    with assms \<open>s = a # s'\<close> have "(n, r) \<in> set (day_alts T (a # b # t))" by simp
    from day_alts_rest [OF this] Cons \<open>s = a # s'\<close> show ?thesis by auto
  qed
qed

lemma month_alts_consume:
  assumes "(n, r) \<in> set (month_alts s)"
  shows "length r + 1 \<le> length s"
proof (cases s)
  case Nil
  with assms show ?thesis by (simp add: month_alts_def)
next
  case (Cons a s')
  show ?thesis
  proof (cases s')
    case Nil
    with assms Cons have "(n, r) \<in> set (if in_range 49 57 a then [(a - 48, [])] else [])"
      by (simp only: month_alts_def list.case)
    from mem_if_singleton [OF this] Cons Nil show ?thesis by simp
  next
    case (Cons b t)
    with assms \<open>s = a # s'\<close> have "(n, r) \<in> set (month_alts (a # b # t))" by simp
    then have "r = t \<or> r = b # t"
      unfolding month_alts_def
      apply (simp only: list.case set_append Un_iff)
      apply (elim disjE)
        apply (drule mem_if_singleton, simp)
       apply (drule mem_if_singleton, simp)
      apply (drule mem_if_singleton, simp)
      done
    with Cons \<open>s = a # s'\<close> show ?thesis by auto
  qed
qed

lemma year_alts_consume:
  assumes "(n, r) \<in> set (year_alts T s)"
  shows "length r + 4 \<le> length s"
proof -
  from assms obtain a b c d where "s = a # b # c # d # r"
    by (auto simp: year_alts_def split: list.splits option.splits)
  then show ?thesis by simp
qed

lemma hyphen_consume:
  "r \<in> set (hyphen s) \<Longrightarrow> length r + 1 \<le> length s"
  by (cases s) (auto simp: hyphen_def split: if_splits)

lemma dmy_matches_consume:
  assumes "(dmy, rest) \<in> set (dmy_matches T s)"
  shows "length rest + 8 \<le> length s"
proof -
  from assms obtain d r1 r2 m r3 r4 y where
    1: "(d, r1) \<in> set (day_alts T s)" and 2: "r2 \<in> set (hyphen r1)"
    and 3: "(m, r3) \<in> set (month_alts r2)" and 4: "r4 \<in> set (hyphen r3)"
    and 5: "(y, rest) \<in> set (year_alts T r4)"
    by (auto simp: dmy_matches_def)
  from day_alts_consume [OF 1] hyphen_consume [OF 2] month_alts_consume [OF 3]
    hyphen_consume [OF 4] year_alts_consume [OF 5]
  show ?thesis by linarith
qed

lemma strptime_dmY_short:
  assumes "length s \<le> 7"
  shows "strptime_dmY T s = Inl ValueError"
proof (cases "dmy_matches T s")
  case Nil
  then show ?thesis by (simp add: strptime_dmY_def)
next
  case (Cons p ps)
  obtain dmy rest where p: "p = (dmy, rest)" by (cases p)
  with Cons have "(dmy, rest) \<in> set (dmy_matches T s)" by simp
  from dmy_matches_consume [OF this] assms show ?thesis by simp
qed

lemma date_group_length:
  assumes "date_group T s = Some d"
  shows "length d = 7"
proof -
  from assms obtain d1 d2 h y1 y2 y3 y4 where "d = [d1, d2, h, y1, y2, y3, y4]"
    by (auto simp: date_group_def split: list.splits if_splits)
  then show ?thesis by simp
qed

lemma after_link_length:
  assumes "after_link T s = Some (m, d)"
  shows "length d = 7"
proof -
  from assms obtain r where "date_group T r = Some d"
    by (auto simp: after_link_def Let_def split: option.splits)
  then show ?thesis by (rule date_group_length)
qed

lemma link_extent_length:
  "link_extent T s n = Some (k, m, d) \<Longrightarrow> length d = 7"
proof (induction n)
  case 0
  then show ?case by simp
next
  case (Suc n)
  show ?case
  proof (cases "after_link T (drop (Suc n) s)")
    case None
    with Suc show ?thesis by simp
  next
    case (Some md)
    obtain m' d' where md: "md = (m', d')" by (cases md)
    with Some Suc.prems have "d = d'" by simp
    with Some md after_link_length show ?thesis by blast
  qed
qed

lemma metadata_match_at_length:
  assumes "metadata_match_at T s = Some (g0, g1, g2)"
  shows "length g2 = 7"
proof -
  from assms obtain r3 n k m where "link_extent T r3 n = Some (k, m, g2)"
    by (auto simp: metadata_match_at_def Let_def split: option.splits)
  then show ?thesis by (rule link_extent_length)
qed

lemma metadata_search_length:
  "metadata_search T s = Some (g0, g1, g2) \<Longrightarrow> length g2 = 7"
proof (induction s)
  case Nil
  then show ?case using metadata_match_at_length by simp
next
  case (Cons c cs)
  show ?case
  proof (cases "metadata_match_at T (c # cs)")
    case None
    with Cons show ?thesis by simp
  next
    case (Some g)
    with Cons.prems have "metadata_match_at T (c # cs) = Some (g0, g1, g2)" by simp
    then show ?thesis by (rule metadata_match_at_length)
  qed
qed

lemma strip_where_length: "length (strip_where p s) \<le> length s"
proof -
  have "length (dropWhile p (rev (dropWhile p s))) \<le> length (rev (dropWhile p s))"
    by (rule length_dropWhile_le)
  also have "\<dots> \<le> length s" by (simp add: length_dropWhile_le)
  finally show ?thesis by (simp add: strip_where_def)
qed

text \<open>
  On no text at all, and with any character tables, does \<open>extract_metadata\<close> produce a
  parsed date: group 2 of the pattern has seven characters, and a date of the form
  day, month and year has at least eight.
\<close>

lemma extract_metadata_date_is_never_parsed:
  "snd (extract_metadata T text) = []
   \<or> (\<exists>link. snd (extract_metadata T text) = [(''link'', VStr link), (''date'', VNone)])"
proof (cases "metadata_search T text")
  case None
  then show ?thesis by (simp add: extract_metadata_def)
next
  case (Some g)
  obtain g0 g1 g2 where g: "g = (g0, g1, g2)" by (cases g)
  with Some have "length g2 = 7" by (auto dest: metadata_search_length)
  with strip_where_length [of py_isspace g2] have "length (py_strip g2) \<le> 7"
    by (simp add: py_strip_def)
  then have "strptime_dmY T (py_strip g2) = Inl ValueError" by (rule strptime_dmY_short)
  with Some g show ?thesis by (simp add: extract_metadata_def Let_def)
qed

end
